theory Spec2Isabelle
  imports Main "HOL-Library.Sublist"
begin

section \<open>The recipe object\<close>

text \<open>
  \<^verbatim>\<open>conanfile.py\<close> declares one class, \<^verbatim>\<open>FossilMediaConan(ConanFile)\<close>. Its class
  attributes (lines 7 to 20) and the attributes of the framework's base class that its
  methods read or assign (\<^verbatim>\<open>self.folders.source\<close>, \<^verbatim>\<open>self.folders.build\<close>,
  \<^verbatim>\<open>self.package_folder\<close>, \<^verbatim>\<open>self.cpp_info.libs\<close>, \<^verbatim>\<open>self.cpp_info.includedirs\<close>)
  are the fields of one record. A Python tuple of strings is a list of strings, a
  dictionary literal is an association list in the order it is written.
\<close>

record conanfile =
  name :: string
  version :: string
  license :: string
  author :: string
  url :: string
  description :: string
  topics :: "string list"
  settings :: "string list"
  options :: "(string \<times> bool list) list"
  default_options :: "(string \<times> bool) list"
  exports_sources :: "string list"
  generators :: string
  folders_source :: string
  folders_build :: string
  package_folder :: string
  cpp_info_libs :: "string list"
  cpp_info_includedirs :: "string list"

text \<open>
  The class attributes are those of the source; the five attributes the framework
  provides to an instance are the arguments of the constructor.
\<close>

definition FossilMediaConan ::
  "string \<Rightarrow> string \<Rightarrow> string \<Rightarrow> string list \<Rightarrow> string list \<Rightarrow> conanfile" where
  "FossilMediaConan fsrc fbuild pkg libs incs =
     \<lparr> name = ''fossil_media'',
       version = ''0.1.1'',
       license = ''MPL-2.0'',
       author = ''Fossil Logic <michaelbrockus@gmail.com>'',
       url = ''https://github.com/fossillogic/fossil-media'',
       description = ''Fossil Media is a lightweight, portable data parsing and processing library written in pure C with zero external dependencies.'',
       topics = [''c'', ''xml'', ''csv'', ''json'', ''cpp'', ''meson'', ''conan-recipe'',
                 ''mesonbuild'', ''ninja-build''],
       settings = [''os'', ''compiler'', ''build_type'', ''arch''],
       options = [(''shared'', [True, False])],
       default_options = [(''shared'', False)],
       exports_sources = [''code/**'', ''meson.build'', ''meson.options''],
       generators = ''PkgConfigDeps'',
       folders_source = fsrc,
       folders_build = fbuild,
       package_folder = pkg,
       cpp_info_libs = libs,
       cpp_info_includedirs = incs \<rparr>"

text \<open>The PackageDescriptor of the specification: the seven descriptive attributes.\<close>

definition descriptor ::
  "conanfile \<Rightarrow> string \<times> string \<times> string \<times> string \<times> string \<times> string \<times> string list" where
  "descriptor c = (name c, version c, license c, author c, url c, description c, topics c)"

section \<open>The host: external calls, their failures and their files\<close>

text \<open>
  The methods of the recipe call code that is not the recipe's: \<^verbatim>\<open>self.run\<close>, the
  \<^verbatim>\<open>Meson\<close> and \<^verbatim>\<open>MesonToolchain\<close> helpers and \<^verbatim>\<open>copy\<close>. Each such call is an event; a
  run of a method appends its events, in order, to the state's list of calls. Whether
  a call raises is the host's business: \<open>raises h past c\<close> is the exception call \<open>c\<close>
  raises after the calls \<open>past\<close>, if any. An exception is not caught anywhere in the
  recipe, so it ends the method.
\<close>

datatype call =
    Run string
  | MesonToolchain_init
  | MesonToolchain_generate
  | Meson_init
  | Meson_configure
  | Meson_build
  | Meson_install
  | Copy string string string

datatype exn = Exn string

datatype outcome = Done | Raised exn

record host =
  raises :: "call list \<Rightarrow> call \<Rightarrow> exn option"
  writes :: "call \<Rightarrow> string set"

record state =
  self :: conanfile
  calls :: "call list"
  files :: "string set"

subsection \<open>Paths and patterns\<close>

text \<open>
  \<^verbatim>\<open>os.path.join\<close> of a POSIX host: a component that starts with a slash replaces what
  was joined so far; otherwise it is appended, after a slash unless the path so far is
  empty or ends with one.
\<close>

definition join2 :: "string \<Rightarrow> string \<Rightarrow> string" where
  "join2 path b =
     (if take 1 b = ''/'' then b
      else if path = [] \<or> last path = CHR ''/'' then path @ b
      else path @ ''/'' @ b)"

definition path_join :: "string \<Rightarrow> string list \<Rightarrow> string" where
  "path_join a p = foldl join2 a p"

text \<open>
  Shell-style matching of a name against a pattern, for the two wildcards \<^verbatim>\<open>*\<close> (any
  run of characters) and \<^verbatim>\<open>?\<close> (one character); every other character stands for
  itself.
\<close>

fun fnmatch :: "string \<Rightarrow> string \<Rightarrow> bool" where
  "fnmatch s [] = (s = [])"
| "fnmatch [] (p # ps) = (p = CHR ''*'' \<and> fnmatch [] ps)"
| "fnmatch (c # cs) (p # ps) =
     (if p = CHR ''*'' then fnmatch (c # cs) ps \<or> fnmatch cs (p # ps)
      else (p = CHR ''?'' \<or> p = c) \<and> fnmatch cs ps)"

text \<open>A file lies under a directory when its path continues the directory's after a slash.\<close>

definition lies_under :: "string \<Rightarrow> string \<Rightarrow> bool" where
  "lies_under dir p = prefix (dir @ ''/'') p"

text \<open>
  The files after \<^verbatim>\<open>copy(conanfile, pattern, src, dst)\<close>: every file under \<open>src\<close> whose
  relative name matches the pattern is also present under \<open>dst\<close>, at the same relative
  name; nothing is removed.
\<close>

definition copy_files :: "string \<Rightarrow> string \<Rightarrow> string \<Rightarrow> string set \<Rightarrow> string set" where
  "copy_files pattern src dst F =
     F \<union> (\<lambda>p. dst @ ''/'' @ drop (length src + 1) p) `
           {p \<in> F. lies_under src p \<and> fnmatch (drop (length src + 1) p) pattern}"

text \<open>
  The files after a call that did not raise: those of \<^verbatim>\<open>copy\<close> as above; every other
  call adds the files the host writes for it.
\<close>

fun effect :: "host \<Rightarrow> call \<Rightarrow> string set \<Rightarrow> string set" where
  "effect h (Copy pattern src dst) F = copy_files pattern src dst F"
| "effect h c F = F \<union> writes h c"

definition perform :: "host \<Rightarrow> call \<Rightarrow> state \<Rightarrow> outcome \<times> state" where
  "perform h c s =
     (case raises h (calls s) c of
        Some e \<Rightarrow> (Raised e, s\<lparr>calls := calls s @ [c]\<rparr>)
      | None \<Rightarrow> (Done, s\<lparr>calls := calls s @ [c], files := effect h c (files s)\<rparr>))"

text \<open>Statement after statement: the next one runs only when nothing was raised.\<close>

definition then_do ::
  "outcome \<times> state \<Rightarrow> (state \<Rightarrow> outcome \<times> state) \<Rightarrow> outcome \<times> state" where
  "then_do r f = (case r of (Done, s) \<Rightarrow> f s | (Raised e, s) \<Rightarrow> (Raised e, s))"

section \<open>The methods of the recipe\<close>

type_synonym hook = "host \<Rightarrow> state \<Rightarrow> outcome \<times> state"

text \<open>Lines 22 to 25.\<close>

definition layout :: hook where
  "layout h s =
     (Done, s\<lparr>self := (self s)\<lparr>folders_source := ''.'', folders_build := ''builddir''\<rparr>\<rparr>)"

text \<open>Lines 27 to 30.\<close>

definition generate :: hook where
  "generate h s =
     then_do (perform h MesonToolchain_init s) (perform h MesonToolchain_generate)"

text \<open>Lines 32 to 36.\<close>

definition build :: hook where
  "build h s =
     then_do (then_do (perform h Meson_init s) (perform h Meson_configure))
       (perform h Meson_build)"

text \<open>
  Lines 38 and 39, the first \<^verbatim>\<open>def source\<close>:
  \<^verbatim>\<open>self.run(f"git clone --branch v{self.version} --depth 1 {self.url}")\<close>.
\<close>

definition source_1 :: hook where
  "source_1 h s =
     perform h
       (Run (''git clone --branch v'' @ version (self s) @ '' --depth 1 '' @ url (self s))) s"

text \<open>Lines 41 to 49.\<close>

definition package :: hook where
  "package h s =
     then_do (then_do (perform h Meson_init s) (perform h Meson_install))
       (\<lambda>s'. perform h
          (Copy ''*.h'' ''code/logic/fossil/media''
             (path_join (package_folder (self s')) [''include'', ''fossil'', ''media''])) s')"

text \<open>Lines 51 to 54.\<close>

definition package_info :: hook where
  "package_info h s =
     (Done, s\<lparr>self := (self s)\<lparr>cpp_info_libs := [''fossil_media''],
                                cpp_info_includedirs := [''include'']\<rparr>\<rparr>)"

text \<open>
  Lines 56 and 57, the second \<^verbatim>\<open>def source\<close>:
  \<^verbatim>\<open>self.run(f"git clone --branch v{self.version} {self.url}")\<close>.
\<close>

definition source_2 :: hook where
  "source_2 h s =
     perform h (Run (''git clone --branch v'' @ version (self s) @ '' '' @ url (self s))) s"

text \<open>
  The body of the class statement, in source order: each \<^verbatim>\<open>def\<close> binds its name in the
  class namespace when it is executed, and a later binding of a name replaces the
  earlier one. \<open>class_dict\<close> is the namespace after the whole body.
\<close>

definition class_body :: "(string \<times> hook) list" where
  "class_body =
     [(''layout'', layout), (''generate'', generate), (''build'', build),
      (''source'', source_1), (''package'', package), (''package_info'', package_info),
      (''source'', source_2)]"

definition class_dict :: "string \<Rightarrow> hook option" where
  "class_dict = foldl (\<lambda>ns (k, m). ns(k \<mapsto> m)) Map.empty class_body"

section \<open>Observations\<close>

text \<open>The external calls a run has added to the state it started from.\<close>

definition new_calls :: "state \<Rightarrow> state \<Rightarrow> call list" where
  "new_calls s s' = drop (length (calls s)) (calls s')"

text \<open>The command lines handed to \<^verbatim>\<open>self.run\<close> among a list of calls.\<close>

fun commands :: "call list \<Rightarrow> string list" where
  "commands [] = []"
| "commands (Run cmd # cs) = cmd # commands cs"
| "commands (c # cs) = commands cs"

text \<open>
  The words of a command line: the runs of characters between blanks. Quoting and
  expansion are not modelled; the statements that read words restrict the interpolated
  strings to \<open>plain_char\<close>, where a shell does neither.
\<close>

fun words_from :: "string \<Rightarrow> string \<Rightarrow> string list" where
  "words_from w [] = (if w = [] then [] else [w])"
| "words_from w (c # cs) =
     (if c = CHR '' '' then (if w = [] then words_from [] cs else w # words_from [] cs)
      else words_from (w @ [c]) cs)"

definition shell_words :: "string \<Rightarrow> string list" where
  "shell_words cmd = words_from [] cmd"

text \<open>The word that follows the first occurrence of an option among the words.\<close>

fun option_value :: "string \<Rightarrow> string list \<Rightarrow> string option" where
  "option_value flag [] = None"
| "option_value flag [w] = None"
| "option_value flag (w # v # ws) = (if w = flag then Some v else option_value flag (v # ws))"

text \<open>Letters, digits and the punctuation of version numbers and URLs.\<close>

definition plain_char :: "char \<Rightarrow> bool" where
  "plain_char c = (c \<in> set ''abcdefghijklmnopqrstuvwxyzABCDEFGHIJKLMNOPQRSTUVWXYZ0123456789._+-/:'')"

definition plain_word :: "string \<Rightarrow> bool" where
  "plain_word w = (w \<noteq> [] \<and> list_all plain_char w)"

text \<open>
  \<^verbatim>\<open>os.path.normpath\<close> of a POSIX host: one leading slash is kept, two are kept as two,
  three or more count as one; the path is split at slashes; empty parts and \<^verbatim>\<open>.\<close> are
  dropped; \<^verbatim>\<open>..\<close> removes the part before it, and is kept at the start of a relative path
  or after another \<^verbatim>\<open>..\<close>; the parts are joined with slashes, and the empty result is
  \<^verbatim>\<open>.\<close>.
\<close>

definition initial_slashes :: "string \<Rightarrow> nat" where
  "initial_slashes path =
     (if take 1 path = ''/'' then (if take 2 path = ''//'' \<and> take 3 path \<noteq> ''///'' then 2 else 1)
      else 0)"

fun split_from :: "string \<Rightarrow> string \<Rightarrow> string list" where
  "split_from w [] = [w]"
| "split_from w (c # cs) =
     (if c = CHR ''/'' then w # split_from [] cs else split_from (w @ [c]) cs)"

definition norm_step :: "nat \<Rightarrow> string list \<Rightarrow> string \<Rightarrow> string list" where
  "norm_step i new_comps part =
     (if part = [] \<or> part = ''.'' then new_comps
      else if part \<noteq> ''..'' \<or> (i = 0 \<and> new_comps = [])
                \<or> (new_comps \<noteq> [] \<and> last new_comps = ''..'')
           then new_comps @ [part]
      else if new_comps \<noteq> [] then butlast new_comps
      else new_comps)"

fun join_slash :: "string list \<Rightarrow> string" where
  "join_slash [] = []"
| "join_slash [c] = c"
| "join_slash (c # d # cs) = c @ ''/'' @ join_slash (d # cs)"

definition normpath :: "string \<Rightarrow> string" where
  "normpath path =
     (if path = [] then ''.''
      else let i = initial_slashes path;
               comps = foldl (norm_step i) [] (split_from [] path);
               p = replicate i CHR ''/'' @ join_slash comps
           in if p = [] then ''.'' else p)"

text \<open>
  A folder attribute names a directory relative to a base directory: the framework
  joins the two and normalises the result.
\<close>

definition resolve :: "string \<Rightarrow> string \<Rightarrow> string" where
  "resolve base folder = normpath (join2 base folder)"

text \<open>Parts that are not empty and hold no slash, and the path written from parts.\<close>

definition tidy :: "string list \<Rightarrow> bool" where
  "tidy cs = (\<forall>c \<in> set cs. c \<noteq> [] \<and> CHR ''/'' \<notin> set c)"

definition render :: "nat \<Rightarrow> string list \<Rightarrow> string" where
  "render i comps = (if replicate i CHR ''/'' @ join_slash comps = [] then ''.''
                     else replicate i CHR ''/'' @ join_slash comps)"

text \<open>
  Methods run one after the other on the same object; the first exception ends the
  run, as it is caught nowhere.
\<close>

fun run_methods :: "host \<Rightarrow> hook list \<Rightarrow> state \<Rightarrow> outcome \<times> state" where
  "run_methods h [] s = (Done, s)"
| "run_methods h (m # ms) s = then_do (m h s) (run_methods h ms)"

text \<open>
  Two hosts and a state to evaluate the methods on: a host on which nothing raises and
  the install step writes the library, a host whose first configure step fails (a
  second one would not), and a fresh instance of the class with package folder
  \<^verbatim>\<open>/pkg\<close> beside a source tree of one header and one C file.
\<close>

definition sample_host :: host where
  "sample_host =
     \<lparr> raises = (\<lambda>past c. None),
       writes = (\<lambda>c. if c = Meson_install then {''/pkg/lib/libfossil_media.a''} else {}) \<rparr>"

definition flaky_host :: host where
  "flaky_host =
     \<lparr> raises = (\<lambda>past c. if c = Meson_configure \<and> Meson_configure \<notin> set past
                            then Some (Exn ''meson setup failed'') else None),
       writes = (\<lambda>c. {}) \<rparr>"

definition sample_state :: state where
  "sample_state =
     \<lparr> self = FossilMediaConan [] [] ''/pkg'' [] [],
       calls = [],
       files = {''code/logic/fossil/media/media.h'', ''code/logic/fossil/media/text.c''} \<rparr>"

section \<open>Facts about the words of a command and the calls of a method\<close>

lemma plain_char_not_blank: "plain_char c \<Longrightarrow> c \<noteq> CHR '' ''"
  by (auto simp: plain_char_def)

lemma words_from_plain_then_blank:
  "list_all plain_char v \<Longrightarrow>
     words_from w (v @ CHR '' '' # rest) =
       (if w @ v = [] then words_from [] rest else (w @ v) # words_from [] rest)"
  by (induction v arbitrary: w) (auto dest: plain_char_not_blank)

lemma words_from_plain_last:
  "list_all plain_char v \<Longrightarrow> words_from w v = (if w @ v = [] then [] else [w @ v])"
  by (induction v arbitrary: w) (auto dest: plain_char_not_blank)

lemma calls_perform: "calls (snd (perform h c s)) = calls s @ [c]"
  by (simp add: perform_def split: option.splits)

lemma self_perform: "self (snd (perform h c s)) = self s"
  by (simp add: perform_def split: option.splits)

lemma new_calls_source_1:
  "new_calls s (snd (source_1 h s)) =
     [Run (''git clone --branch v'' @ version (self s) @ '' --depth 1 '' @ url (self s))]"
  by (simp add: new_calls_def source_1_def calls_perform)

lemma new_calls_source_2:
  "new_calls s (snd (source_2 h s)) =
     [Run (''git clone --branch v'' @ version (self s) @ '' '' @ url (self s))]"
  by (simp add: new_calls_def source_2_def calls_perform)

lemma words_source_1:
  assumes "list_all plain_char v" "plain_word u"
  shows "shell_words (''git clone --branch v'' @ v @ '' --depth 1 '' @ u) =
           [''git'', ''clone'', ''--branch'', ''v'' @ v, ''--depth'', ''1'', u]"
  using assms
  by (simp add: shell_words_def words_from_plain_then_blank words_from_plain_last plain_word_def)

lemma words_source_2:
  assumes "list_all plain_char v" "plain_word u"
  shows "shell_words (''git clone --branch v'' @ v @ '' '' @ u) =
           [''git'', ''clone'', ''--branch'', ''v'' @ v, u]"
  using assms
  by (simp add: shell_words_def words_from_plain_then_blank words_from_plain_last plain_word_def)

lemma branch_word:
  assumes "list_all plain_char v"
  shows "option_value ''--branch'' (shell_words (''git clone --branch v'' @ v @ CHR '' '' # rest)) = Some (''v'' @ v)"
  using assms
  by (simp add: shell_words_def words_from_plain_then_blank)

lemma source_cmds_differ:
  "''git clone --branch v'' @ v @ '' --depth 1 '' @ u \<noteq> ''git clone --branch v'' @ v @ '' '' @ u"
proof
  assume "''git clone --branch v'' @ v @ '' --depth 1 '' @ u = ''git clone --branch v'' @ v @ '' '' @ u"
  then have "length (''git clone --branch v'' @ v @ '' --depth 1 '' @ u)
               = length (''git clone --branch v'' @ v @ '' '' @ u)"
    by (rule arg_cong)
  then show False by simp
qed

subsection \<open>C2: the second definition of source is the one in effect\<close>

text \<open>
  Claim C2. The class body holds two definitions under the name \<^verbatim>\<open>source\<close>, of the
  same signature, and the second replaces the first: the method the class namespace
  holds under that name is the later one. The two are not equivalent: on every host
  and state their results differ. For a plain version and URL the command of the first
  is \<^verbatim>\<open>git clone --branch v<version> --depth 1 <url>\<close>, that of the second is
  \<^verbatim>\<open>git clone --branch v<version> <url>\<close>, without the depth option.
\<close>

theorem source_second_definition_overrides:
  "map snd (filter (\<lambda>(k, m). k = ''source'') class_body) = [source_1, source_2]
   \<and> class_dict ''source'' = Some source_2
   \<and> source_1 h s \<noteq> source_2 h s
   \<and> (list_all plain_char (version (self s)) \<and> plain_word (url (self s)) \<longrightarrow>
        map shell_words (commands (new_calls s (snd (source_1 h s))))
          = [[''git'', ''clone'', ''--branch'', ''v'' @ version (self s), ''--depth'', ''1'', url (self s)]]
        \<and> map shell_words (commands (new_calls s (snd (source_2 h s))))
          = [[''git'', ''clone'', ''--branch'', ''v'' @ version (self s), url (self s)]])"
proof -
  have two: "map snd (filter (\<lambda>(k, m). k = ''source'') class_body) = [source_1, source_2]"
    by (simp add: class_body_def)
  have later: "class_dict ''source'' = Some source_2"
    by (simp add: class_dict_def class_body_def)
  have differ: "source_1 h s \<noteq> source_2 h s"
  proof
    assume "source_1 h s = source_2 h s"
    then have "new_calls s (snd (source_1 h s)) = new_calls s (snd (source_2 h s))"
      by simp
    then show False
      by (simp add: new_calls_source_1 new_calls_source_2 source_cmds_differ)
  qed
  have argv: "list_all plain_char (version (self s)) \<and> plain_word (url (self s)) \<longrightarrow>
        map shell_words (commands (new_calls s (snd (source_1 h s))))
          = [[''git'', ''clone'', ''--branch'', ''v'' @ version (self s), ''--depth'', ''1'', url (self s)]]
        \<and> map shell_words (commands (new_calls s (snd (source_2 h s))))
          = [[''git'', ''clone'', ''--branch'', ''v'' @ version (self s), url (self s)]]"
  proof
    assume plain: "list_all plain_char (version (self s)) \<and> plain_word (url (self s))"
    then have w1: "shell_words (''git clone --branch v'' @ version (self s) @ '' --depth 1 '' @ url (self s))
                    = [''git'', ''clone'', ''--branch'', ''v'' @ version (self s), ''--depth'', ''1'', url (self s)]"
      by (intro words_source_1) simp_all
    from plain have w2: "shell_words (''git clone --branch v'' @ version (self s) @ '' '' @ url (self s))
                    = [''git'', ''clone'', ''--branch'', ''v'' @ version (self s), url (self s)]"
      by (intro words_source_2) simp_all
    show "map shell_words (commands (new_calls s (snd (source_1 h s))))
          = [[''git'', ''clone'', ''--branch'', ''v'' @ version (self s), ''--depth'', ''1'', url (self s)]]
        \<and> map shell_words (commands (new_calls s (snd (source_2 h s))))
          = [[''git'', ''clone'', ''--branch'', ''v'' @ version (self s), url (self s)]]"
      by (simp only: new_calls_source_1 new_calls_source_2 commands.simps list.map w1 w2 simp_thms)
  qed
  from two later differ argv show ?thesis by blast
qed

lemma sample_version: "version (self sample_state) = ''0.1.1''"
  by (simp add: sample_state_def FossilMediaConan_def)

lemma sample_url: "url (self sample_state) = ''https://github.com/fossillogic/fossil-media''"
  by (simp add: sample_state_def FossilMediaConan_def)

theorem source_second_definition_overrides_witness:
  "list_all plain_char (version (self sample_state)) \<and> plain_word (url (self sample_state))
   \<and> class_dict ''source'' = Some source_2
   \<and> map shell_words (commands (new_calls sample_state (snd (source_1 sample_host sample_state))))
       = [[''git'', ''clone'', ''--branch'', ''v0.1.1'', ''--depth'', ''1'',
           ''https://github.com/fossillogic/fossil-media'']]
   \<and> map shell_words (commands (new_calls sample_state (snd (source_2 sample_host sample_state))))
       = [[''git'', ''clone'', ''--branch'', ''v0.1.1'',
           ''https://github.com/fossillogic/fossil-media'']]"
  using source_second_definition_overrides [of sample_host sample_state]
  by (simp add: sample_version sample_url plain_word_def plain_char_def)

subsection \<open>C3: both definitions of source name the tag v + version\<close>

text \<open>
  Claim C3. For every version string, each of the two definitions of \<^verbatim>\<open>source\<close> runs
  exactly one command, and in it \<^verbatim>\<open>--branch\<close> is followed by the text \<open>''v'' @ version\<close>
  and a blank. When the version is made of plain characters, the word after
  \<^verbatim>\<open>--branch\<close> in the command line is exactly \<open>''v'' @ version\<close>; for the version of the
  recipe, \<^verbatim>\<open>0.1.1\<close>, it is \<^verbatim>\<open>v0.1.1\<close>.
\<close>

theorem source_targets_tag_of_version:
  "(\<exists>rest. new_calls s (snd (source_1 h s))
             = [Run (''git clone --branch '' @ (''v'' @ version (self s)) @ '' '' @ rest)])
   \<and> (\<exists>rest. new_calls s (snd (source_2 h s))
             = [Run (''git clone --branch '' @ (''v'' @ version (self s)) @ '' '' @ rest)])
   \<and> (list_all plain_char (version (self s)) \<longrightarrow>
        map (option_value ''--branch'') (map shell_words (commands (new_calls s (snd (source_1 h s)))))
          = [Some (''v'' @ version (self s))]
        \<and> map (option_value ''--branch'') (map shell_words (commands (new_calls s (snd (source_2 h s)))))
          = [Some (''v'' @ version (self s))])"
proof -
  have first: "\<exists>rest. new_calls s (snd (source_1 h s))
             = [Run (''git clone --branch '' @ (''v'' @ version (self s)) @ '' '' @ rest)]"
    by (rule exI [of _ "''--depth 1 '' @ url (self s)"]) (simp add: new_calls_source_1)
  have second: "\<exists>rest. new_calls s (snd (source_2 h s))
             = [Run (''git clone --branch '' @ (''v'' @ version (self s)) @ '' '' @ rest)]"
    by (rule exI [of _ "url (self s)"]) (simp add: new_calls_source_2)
  have argv: "list_all plain_char (version (self s)) \<longrightarrow>
        map (option_value ''--branch'') (map shell_words (commands (new_calls s (snd (source_1 h s)))))
          = [Some (''v'' @ version (self s))]
        \<and> map (option_value ''--branch'') (map shell_words (commands (new_calls s (snd (source_2 h s)))))
          = [Some (''v'' @ version (self s))]"
  proof
    assume plain: "list_all plain_char (version (self s))"
    have b1: "option_value ''--branch''
                (shell_words (''git clone --branch v'' @ version (self s) @ '' --depth 1 '' @ url (self s)))
              = Some (''v'' @ version (self s))"
      using branch_word [OF plain, of "''--depth 1 '' @ url (self s)"] by simp
    have b2: "option_value ''--branch''
                (shell_words (''git clone --branch v'' @ version (self s) @ '' '' @ url (self s)))
              = Some (''v'' @ version (self s))"
      using branch_word [OF plain, of "url (self s)"] by simp
    show "map (option_value ''--branch'') (map shell_words (commands (new_calls s (snd (source_1 h s)))))
          = [Some (''v'' @ version (self s))]
        \<and> map (option_value ''--branch'') (map shell_words (commands (new_calls s (snd (source_2 h s)))))
          = [Some (''v'' @ version (self s))]"
      by (simp only: new_calls_source_1 new_calls_source_2 commands.simps list.map b1 b2 simp_thms)
  qed
  from first second argv show ?thesis by blast
qed

theorem source_targets_tag_of_version_witness:
  "list_all plain_char (version (self sample_state))
   \<and> version (self sample_state) = ''0.1.1''
   \<and> map (option_value ''--branch'')
        (map shell_words (commands (new_calls sample_state (snd (source_1 sample_host sample_state)))))
       = [Some ''v0.1.1'']
   \<and> map (option_value ''--branch'')
        (map shell_words (commands (new_calls sample_state (snd (source_2 sample_host sample_state)))))
       = [Some ''v0.1.1'']"
  using source_targets_tag_of_version [of sample_state sample_host]
  by (simp add: sample_version plain_char_def)

subsection \<open>C1: the clone of the source method in effect has no depth limit\<close>

text \<open>
  Claim C1 says that \<^verbatim>\<open>source()\<close> makes a clone of history depth 1 of the tag of the
  version. On an instance of the class, the method the class namespace holds under
  \<^verbatim>\<open>source\<close> runs \<^verbatim>\<open>git clone --branch v0.1.1 https://github.com/fossillogic/fossil-media\<close>:
  the tag is the one of the version, and no \<^verbatim>\<open>--depth\<close> option is among the words of the
  command. The depth limit is in the first definition only (lines 38 and 39), which the
  second (lines 56 and 57) replaces.
\<close>

theorem source_in_effect_clones_full_history:
  "class_dict ''source'' = Some source_2
   \<and> map shell_words
        (commands (new_calls \<lparr>self = FossilMediaConan fsrc fbuild pkg libs incs, calls = cs, files = F\<rparr>
           (snd (source_2 h \<lparr>self = FossilMediaConan fsrc fbuild pkg libs incs, calls = cs, files = F\<rparr>))))
       = [[''git'', ''clone'', ''--branch'', ''v0.1.1'', ''https://github.com/fossillogic/fossil-media'']]
   \<and> map (option_value ''--depth'')
        (map shell_words
          (commands (new_calls \<lparr>self = FossilMediaConan fsrc fbuild pkg libs incs, calls = cs, files = F\<rparr>
            (snd (source_2 h \<lparr>self = FossilMediaConan fsrc fbuild pkg libs incs, calls = cs, files = F\<rparr>)))))
       = [None]"
proof -
  have later: "class_dict ''source'' = Some source_2"
    by (simp add: class_dict_def class_body_def)
  have words: "shell_words ''git clone --branch v0.1.1 https://github.com/fossillogic/fossil-media''
         = [''git'', ''clone'', ''--branch'', ''v0.1.1'', ''https://github.com/fossillogic/fossil-media'']"
    by (simp add: shell_words_def)
  have depth: "option_value ''--depth''
          [''git'', ''clone'', ''--branch'', ''v0.1.1'', ''https://github.com/fossillogic/fossil-media'']
         = None"
    by simp
  show ?thesis
    using later words depth by (simp add: new_calls_source_2 FossilMediaConan_def)
qed

lemma split_from_plain: "CHR ''/'' \<notin> set c \<Longrightarrow> split_from w c = [w @ c]"
  by (induction c arbitrary: w) auto

lemma split_from_snoc:
  "CHR ''/'' \<notin> set c \<Longrightarrow> split_from w (x @ CHR ''/'' # c) = split_from w x @ [c]"
  by (induction x arbitrary: w) (auto simp: split_from_plain)

lemma split_from_slash_free:
  "CHR ''/'' \<notin> set w \<Longrightarrow> c \<in> set (split_from w x) \<Longrightarrow> CHR ''/'' \<notin> set c"
proof (induction x arbitrary: w)
  case Nil
  then show ?case by simp
next
  case (Cons a x)
  show ?case
  proof (cases "a = CHR ''/''")
    case True
    with Cons.prems have "c = w \<or> c \<in> set (split_from [] x)"
      by simp
    with Cons.prems(1) Cons.IH [of "[]"] show ?thesis
      by auto
  next
    case False
    with Cons.prems have "c \<in> set (split_from (w @ [a]) x)"
      by simp
    with False Cons.prems(1) Cons.IH [of "w @ [a]"] show ?thesis
      by simp
  qed
qed

lemma tidy_step: "tidy cs \<Longrightarrow> CHR ''/'' \<notin> set c \<Longrightarrow> tidy (norm_step i cs c)"
  by (auto simp: tidy_def norm_step_def dest: in_set_butlastD)

lemma tidy_foldl:
  "tidy cs \<Longrightarrow> \<forall>c \<in> set xs. CHR ''/'' \<notin> set c \<Longrightarrow> tidy (foldl (norm_step i) cs xs)"
  by (induction xs arbitrary: cs) (auto simp: tidy_step)

lemma tidy_comps: "tidy (foldl (norm_step i) [] (split_from [] x))"
  by (rule tidy_foldl) (auto simp: tidy_def dest: split_from_slash_free [rotated])

lemma comps_join2:
  assumes "c \<noteq> []" "CHR ''/'' \<notin> set c"
  shows "foldl (norm_step i) [] (split_from [] (join2 base c))
           = norm_step i (foldl (norm_step i) [] (split_from [] base)) c"
proof -
  from assms have nabs: "take 1 c \<noteq> ''/''"
    by (cases c) auto
  show ?thesis
  proof (cases "base = []")
    case True
    with assms nabs show ?thesis
      by (simp add: join2_def split_from_plain norm_step_def)
  next
    case False
    show ?thesis
    proof (cases "last base = CHR ''/''")
      case True
      with False obtain b where b: "base = b @ ''/''"
        by (metis append_butlast_last_id)
      have "split_from [] (b @ CHR ''/'' # c) = split_from [] b @ [c]"
        using assms by (simp add: split_from_snoc)
      moreover have "split_from [] (b @ CHR ''/'' # []) = split_from [] b @ [[]]"
        by (simp add: split_from_snoc)
      ultimately show ?thesis
        using nabs b by (simp add: join2_def norm_step_def)
    next
      case True2: False
      have "split_from [] (base @ CHR ''/'' # c) = split_from [] base @ [c]"
        using assms by (simp add: split_from_snoc)
      then show ?thesis
        using nabs False True2 by (simp add: join2_def)
    qed
  qed
qed

lemma initial_slashes_join2:
  assumes "c \<noteq> []" "hd c \<noteq> CHR ''/''"
  shows "initial_slashes (join2 base c) = initial_slashes base"
proof -
  from assms obtain a c' where c: "c = a # c'" "a \<noteq> CHR ''/''"
    by (cases c) auto
  show ?thesis
  proof (cases base)
    case Nil
    with c show ?thesis by (simp add: join2_def initial_slashes_def)
  next
    case (Cons x xs)
    note base1 = Cons
    show ?thesis
    proof (cases xs)
      case Nil
      with base1 c show ?thesis by (simp add: join2_def initial_slashes_def)
    next
      case (Cons y ys)
      note base2 = Cons
      show ?thesis
      proof (cases ys)
        case Nil
        with base1 base2 c show ?thesis by (simp add: join2_def initial_slashes_def)
      next
        case (Cons z zs)
        with base1 base2 c show ?thesis by (simp add: join2_def initial_slashes_def)
      qed
    qed
  qed
qed

lemma join2_nonempty: "c \<noteq> [] \<Longrightarrow> join2 base c \<noteq> []"
  by (simp add: join2_def)

lemma join_slash_snoc:
  "join_slash (cs @ [b]) = (if cs = [] then b else join_slash cs @ ''/'' @ b)"
  by (induction cs rule: join_slash.induct) auto

lemma join_slash_last:
  "tidy cs \<Longrightarrow> cs \<noteq> [] \<Longrightarrow> join_slash cs \<noteq> [] \<and> last (join_slash cs) \<noteq> CHR ''/''"
proof (induction cs rule: join_slash.induct)
  case 1
  then show ?case by simp
next
  case (2 c)
  then have c: "c \<noteq> []" "CHR ''/'' \<notin> set c"
    by (simp_all add: tidy_def)
  from c(1) have "last c \<in> set c"
    by (rule last_in_set)
  with c(2) have "last c \<noteq> CHR ''/''"
    by metis
  with c(1) show ?case by simp
next
  case (3 c d cs)
  then have "tidy (d # cs)"
    by (simp add: tidy_def)
  with "3.IH" show ?case by simp
qed

lemma normpath_join2:
  assumes "c \<noteq> []" "CHR ''/'' \<notin> set c"
  shows "normpath (join2 base c)
           = render (initial_slashes base)
               (norm_step (initial_slashes base)
                  (foldl (norm_step (initial_slashes base)) [] (split_from [] base)) c)"
proof -
  from assms have "hd c \<noteq> CHR ''/''"
    by (cases c) auto
  with assms have i: "initial_slashes (join2 base c) = initial_slashes base"
    by (simp add: initial_slashes_join2)
  from assms have "join2 base c \<noteq> []"
    by (simp add: join2_nonempty)
  then show ?thesis
    by (simp add: normpath_def Let_def i comps_join2 [OF assms] render_def)
qed

lemma resolve_dot:
  "resolve base ''.'' = render (initial_slashes base)
                          (foldl (norm_step (initial_slashes base)) [] (split_from [] base))"
  unfolding resolve_def by (subst normpath_join2) (simp_all add: norm_step_def)

lemma resolve_builddir:
  "resolve base ''builddir'' = render (initial_slashes base)
       (foldl (norm_step (initial_slashes base)) [] (split_from [] base) @ [''builddir''])"
  unfolding resolve_def by (subst normpath_join2) (simp_all add: norm_step_def)

lemma join2_render:
  assumes "0 < i" "tidy cs"
  shows "join2 (render i cs) ''builddir'' = render i (cs @ [''builddir''])"
proof -
  from assms(1) obtain j where i: "i = Suc j"
    by (cases i) auto
  show ?thesis
  proof (cases "cs = []")
    case True
    then show ?thesis
      by (simp add: render_def i join2_def)
  next
    case False
    with assms(2) have "join_slash cs \<noteq> []" "last (join_slash cs) \<noteq> CHR ''/''"
      using join_slash_last by blast+
    with False show ?thesis
      by (simp add: render_def i join2_def join_slash_snoc)
  qed
qed

lemma absolute_initial_slashes: "take 1 base = ''/'' \<Longrightarrow> 0 < initial_slashes base"
  by (simp add: initial_slashes_def)

lemma resolve_builddir_under_dot:
  assumes "take 1 base = ''/''"
  shows "resolve base ''builddir'' = join2 (resolve base ''.'') ''builddir''"
  unfolding resolve_dot resolve_builddir
  by (rule join2_render [symmetric]) (simp_all add: absolute_initial_slashes [OF assms] tidy_comps)

lemma same_directory:
  "normpath (path_join base [''.'', ''builddir'']) = normpath (path_join base [''builddir''])"
proof -
  have i: "initial_slashes (join2 base ''.'') = initial_slashes base"
    by (rule initial_slashes_join2) simp_all
  have c: "foldl (norm_step (initial_slashes base)) [] (split_from [] (join2 base ''.''))
             = foldl (norm_step (initial_slashes base)) [] (split_from [] base)"
    by (subst comps_join2) (simp_all add: norm_step_def)
  have "normpath (join2 (join2 base ''.'') ''builddir'') = normpath (join2 base ''builddir'')"
    by (subst (1 2) normpath_join2) (simp_all add: i c)
  then show ?thesis
    by (simp add: path_join_def)
qed

subsection \<open>C5: layout puts the build root at builddir under the source root\<close>

text \<open>
  Claim C5. \<^verbatim>\<open>layout()\<close> always sets the source folder to \<^verbatim>\<open>.\<close> and the build folder to
  \<^verbatim>\<open>builddir\<close>, the same on every host and state. Both are names relative to the
  directory of the invocation. Whatever that directory is, the build folder joined to
  it normalises to the same path as the source folder followed by \<^verbatim>\<open>builddir\<close> joined
  to it. When the directory is absolute, the build root (the build folder resolved
  against it) is literally the source root (the source folder resolved against it)
  joined with \<^verbatim>\<open>builddir\<close>.
\<close>

theorem layout_build_root_is_builddir_under_source_root:
  "folders_source (self (snd (layout h s))) = ''.''
   \<and> folders_build (self (snd (layout h s))) = ''builddir''
   \<and> normpath (path_join base [folders_build (self (snd (layout h s)))])
       = normpath (path_join base [folders_source (self (snd (layout h s))), ''builddir''])
   \<and> (take 1 base = ''/'' \<longrightarrow>
        resolve base (folders_build (self (snd (layout h s))))
          = join2 (resolve base (folders_source (self (snd (layout h s))))) ''builddir'')
   \<and> folders_source (self (snd (layout h s))) = folders_source (self (snd (layout h' s')))
   \<and> folders_build (self (snd (layout h s))) = folders_build (self (snd (layout h' s')))"
proof -
  have src: "folders_source (self (snd (layout h s))) = ''.''"
    and bld: "folders_build (self (snd (layout h s))) = ''builddir''"
    and src': "folders_source (self (snd (layout h' s'))) = ''.''"
    and bld': "folders_build (self (snd (layout h' s'))) = ''builddir''"
    by (simp_all add: layout_def)
  have same: "normpath (path_join base [''builddir''])
                = normpath (path_join base [''.'', ''builddir''])"
    by (rule same_directory [symmetric])
  have lit: "take 1 base = ''/'' \<longrightarrow>
               resolve base ''builddir'' = join2 (resolve base ''.'') ''builddir''"
    by (blast intro: resolve_builddir_under_dot)
  from same lit show ?thesis
    unfolding src bld src' bld' by blast
qed

theorem layout_build_root_is_builddir_under_source_root_witness:
  "take 1 ''/work'' = ''/''
   \<and> resolve ''/work'' (folders_source (self (snd (layout sample_host sample_state)))) = ''/work''
   \<and> resolve ''/work'' (folders_build (self (snd (layout sample_host sample_state))))
       = ''/work/builddir''
   \<and> join2 ''/work'' ''builddir'' = ''/work/builddir''"
proof -
  have root: "resolve ''/work'' ''.'' = ''/work''"
    by (simp add: resolve_def normpath_def join2_def initial_slashes_def norm_step_def Let_def)
  have sub: "join2 ''/work'' ''builddir'' = ''/work/builddir''"
    by (simp add: join2_def)
  from layout_build_root_is_builddir_under_source_root [of sample_host sample_state "''/work''"]
  have src: "folders_source (self (snd (layout sample_host sample_state))) = ''.''"
    and lit: "take 1 ''/work'' = ''/'' \<longrightarrow>
               resolve ''/work'' (folders_build (self (snd (layout sample_host sample_state))))
                 = join2 (resolve ''/work''
                     (folders_source (self (snd (layout sample_host sample_state))))) ''builddir''"
    by blast+
  from lit have "resolve ''/work'' (folders_build (self (snd (layout sample_host sample_state))))
                   = ''/work/builddir''"
    unfolding src root sub by simp
  with src root sub show ?thesis
    by simp
qed

subsection \<open>C6: the one library of package_info is the name of the package\<close>

text \<open>
  Claim C6. On an object that carries the name of the recipe, \<^verbatim>\<open>package_info()\<close>
  never raises and leaves a list of libraries with exactly one entry, equal to that
  name, \<^verbatim>\<open>fossil_media\<close>, as it is.
\<close>

theorem package_info_libs_is_descriptor_name:
  assumes "name (self s) = name (FossilMediaConan fsrc fbuild pkg libs incs)"
  shows "fst (package_info h s) = Done
         \<and> cpp_info_libs (self (snd (package_info h s))) = [name (self s)]
         \<and> length (cpp_info_libs (self (snd (package_info h s)))) = 1
         \<and> name (self s) = ''fossil_media''"
  using assms by (simp add: package_info_def FossilMediaConan_def)

theorem package_info_libs_is_descriptor_name_witness:
  "name (self sample_state) = name (FossilMediaConan [] [] ''/pkg'' [] [])
   \<and> cpp_info_libs (self (snd (package_info sample_host sample_state))) = [''fossil_media'']"
  using package_info_libs_is_descriptor_name [of sample_state "[]" "[]" "''/pkg''" "[]" "[]" sample_host]
  by (simp add: sample_state_def FossilMediaConan_def)

subsection \<open>C8: shared is the only option\<close>

text \<open>
  Claim C8. The options of the recipe have the single key \<^verbatim>\<open>shared\<close>; its values are
  \<open>True\<close> and \<open>False\<close>, which are all the Booleans; the default options have the
  single key \<^verbatim>\<open>shared\<close>, with the value \<open>False\<close>.
\<close>

theorem shared_is_the_only_option:
  "map fst (options (FossilMediaConan fsrc fbuild pkg libs incs)) = [''shared'']
   \<and> map_of (options (FossilMediaConan fsrc fbuild pkg libs incs)) ''shared'' = Some [True, False]
   \<and> set [True, False] = (UNIV :: bool set)
   \<and> map fst (default_options (FossilMediaConan fsrc fbuild pkg libs incs)) = [''shared'']
   \<and> map_of (default_options (FossilMediaConan fsrc fbuild pkg libs incs)) ''shared'' = Some False"
  by (auto simp: FossilMediaConan_def)

subsection \<open>C7: build configures, then builds, and retries nothing\<close>

text \<open>
  Claim C7. The external calls of \<^verbatim>\<open>build()\<close> are an initial part of: creating the
  \<^verbatim>\<open>Meson\<close> helper, its configure step, its build step; so each step is invoked at most
  once and the build step only after the configure step. When \<^verbatim>\<open>build()\<close> returns, they
  are exactly these three, once each. When it raises, the exception is the one that
  the last call it made raised on the host. The object is left as it was. A failure
  is never absorbed: when creating the helper raises, \<^verbatim>\<open>build()\<close> raises that exception
  and has made no other call; when the configure step raises, \<^verbatim>\<open>build()\<close> raises that
  exception and the build step is not invoked; when the build step raises,
  \<^verbatim>\<open>build()\<close> raises that exception after the three calls. It returns when none of
  the three raises.
\<close>

theorem build_configures_then_builds_without_retry:
  "prefix (new_calls s (snd (build h s))) [Meson_init, Meson_configure, Meson_build]
   \<and> (fst (build h s) = Done \<longrightarrow>
        new_calls s (snd (build h s)) = [Meson_init, Meson_configure, Meson_build])
   \<and> (\<forall>e. fst (build h s) = Raised e \<longrightarrow>
        new_calls s (snd (build h s)) \<noteq> []
        \<and> raises h (butlast (calls (snd (build h s)))) (last (calls (snd (build h s)))) = Some e)
   \<and> self (snd (build h s)) = self s
   \<and> (\<forall>e. raises h (calls s) Meson_init = Some e \<longrightarrow>
        fst (build h s) = Raised e \<and> new_calls s (snd (build h s)) = [Meson_init])
   \<and> (\<forall>e. raises h (calls s) Meson_init = None
          \<and> raises h (calls s @ [Meson_init]) Meson_configure = Some e \<longrightarrow>
        fst (build h s) = Raised e
        \<and> new_calls s (snd (build h s)) = [Meson_init, Meson_configure])
   \<and> (\<forall>e. raises h (calls s) Meson_init = None
          \<and> raises h (calls s @ [Meson_init]) Meson_configure = None
          \<and> raises h (calls s @ [Meson_init, Meson_configure]) Meson_build = Some e \<longrightarrow>
        fst (build h s) = Raised e
        \<and> new_calls s (snd (build h s)) = [Meson_init, Meson_configure, Meson_build])
   \<and> (raises h (calls s) Meson_init = None
        \<and> raises h (calls s @ [Meson_init]) Meson_configure = None
        \<and> raises h (calls s @ [Meson_init, Meson_configure]) Meson_build = None \<longrightarrow>
        fst (build h s) = Done)"
  by (auto simp: build_def then_do_def perform_def new_calls_def butlast_append
           split: option.splits)

theorem build_configures_then_builds_without_retry_witness:
  "raises sample_host (calls sample_state) Meson_init = None
   \<and> raises sample_host (calls sample_state @ [Meson_init]) Meson_configure = None
   \<and> raises sample_host (calls sample_state @ [Meson_init, Meson_configure]) Meson_build = None
   \<and> fst (build sample_host sample_state) = Done
   \<and> new_calls sample_state (snd (build sample_host sample_state))
       = [Meson_init, Meson_configure, Meson_build]
   \<and> raises flaky_host (calls sample_state) Meson_init = None
   \<and> raises flaky_host (calls sample_state @ [Meson_init]) Meson_configure
       = Some (Exn ''meson setup failed'')
   \<and> fst (build flaky_host sample_state) = Raised (Exn ''meson setup failed'')
   \<and> new_calls sample_state (snd (build flaky_host sample_state)) = [Meson_init, Meson_configure]
   \<and> raises flaky_host (butlast (calls (snd (build flaky_host sample_state))))
        (last (calls (snd (build flaky_host sample_state)))) = Some (Exn ''meson setup failed'')
   \<and> raises flaky_host (calls (snd (build flaky_host sample_state))) Meson_configure = None"
proof -
  have quiet: "raises sample_host (calls sample_state) Meson_init = None"
      "raises sample_host (calls sample_state @ [Meson_init]) Meson_configure = None"
      "raises sample_host (calls sample_state @ [Meson_init, Meson_configure]) Meson_build = None"
    by (simp_all add: sample_host_def)
  have flaky: "raises flaky_host (calls sample_state) Meson_init = None"
      "raises flaky_host (calls sample_state @ [Meson_init]) Meson_configure
         = Some (Exn ''meson setup failed'')"
    by (simp_all add: flaky_host_def sample_state_def)
  note on_quiet = build_configures_then_builds_without_retry [of sample_state sample_host]
  note on_flaky = build_configures_then_builds_without_retry [of sample_state flaky_host]
  from on_quiet quiet have ok: "fst (build sample_host sample_state) = Done"
    by blast
  with on_quiet have all: "new_calls sample_state (snd (build sample_host sample_state))
       = [Meson_init, Meson_configure, Meson_build]"
    by blast
  from on_flaky flaky
  have bad: "fst (build flaky_host sample_state) = Raised (Exn ''meson setup failed'')"
    and stop: "new_calls sample_state (snd (build flaky_host sample_state))
                 = [Meson_init, Meson_configure]"
    by blast+
  from on_flaky bad
  have last: "raises flaky_host (butlast (calls (snd (build flaky_host sample_state))))
        (last (calls (snd (build flaky_host sample_state)))) = Some (Exn ''meson setup failed'')"
    by blast
  from stop have "calls (snd (build flaky_host sample_state)) = [Meson_init, Meson_configure]"
    by (simp add: new_calls_def sample_state_def)
  then have again: "raises flaky_host (calls (snd (build flaky_host sample_state))) Meson_configure = None"
    by (simp add: flaky_host_def)
  from quiet flaky ok all bad stop last again show ?thesis
    by simp
qed

lemma descriptor_then_do:
  assumes "descriptor (self (snd r)) = d" and "\<And>s'. descriptor (self s') = d \<Longrightarrow> descriptor (self (snd (f s'))) = d"
  shows "descriptor (self (snd (then_do r f))) = d"
  using assms by (cases r) (auto simp: then_do_def split: outcome.splits)

lemma descriptor_perform: "descriptor (self (snd (perform h c s))) = descriptor (self s)"
  by (simp add: self_perform)

lemma class_methods_keep_descriptor:
  assumes "m \<in> snd ` set class_body"
  shows "descriptor (self (snd (m h s))) = descriptor (self s)"
proof -
  have l: "descriptor (self (snd (layout h s))) = descriptor (self s)"
    by (simp add: layout_def descriptor_def)
  have g: "descriptor (self (snd (generate h s))) = descriptor (self s)"
    unfolding generate_def by (intro descriptor_then_do) (simp_all add: descriptor_perform)
  have b: "descriptor (self (snd (build h s))) = descriptor (self s)"
    unfolding build_def by (intro descriptor_then_do) (simp_all add: descriptor_perform)
  have s1: "descriptor (self (snd (source_1 h s))) = descriptor (self s)"
    by (simp add: source_1_def descriptor_perform)
  have p: "descriptor (self (snd (package h s))) = descriptor (self s)"
    unfolding package_def by (intro descriptor_then_do) (simp_all add: descriptor_perform)
  have i: "descriptor (self (snd (package_info h s))) = descriptor (self s)"
    by (simp add: package_info_def descriptor_def)
  have s2: "descriptor (self (snd (source_2 h s))) = descriptor (self s)"
    by (simp add: source_2_def descriptor_perform)
  from assms have "m = layout \<or> m = generate \<or> m = build \<or> m = source_1 \<or> m = package
                   \<or> m = package_info \<or> m = source_2"
    by (auto simp: class_body_def)
  with l g b s1 p i s2 show ?thesis by blast
qed

subsection \<open>C9: no method changes the descriptor\<close>

text \<open>
  Claim C9. Whatever methods of the class body are run, in whatever order and on
  whatever host, the seven descriptor attributes (name, version, license, author,
  url, description, topics) of the object are afterwards what they were before.
\<close>

theorem descriptor_never_mutated:
  assumes "set ms \<subseteq> snd ` set class_body"
  shows "descriptor (self (snd (run_methods h ms s))) = descriptor (self s)"
  using assms
proof (induction ms arbitrary: s)
  case Nil
  show ?case by simp
next
  case (Cons m ms)
  have step: "descriptor (self (snd (m h s))) = descriptor (self s)"
    using Cons.prems by (intro class_methods_keep_descriptor) simp
  have rest: "\<And>s'. descriptor (self s') = descriptor (self s) \<Longrightarrow>
                descriptor (self (snd (run_methods h ms s'))) = descriptor (self s)"
    using Cons.IH Cons.prems by simp
  show ?case
    unfolding run_methods.simps using step rest by (rule descriptor_then_do)
qed

theorem descriptor_never_mutated_witness:
  "set [layout, generate, build, source_2, package, package_info] \<subseteq> snd ` set class_body
   \<and> descriptor (self (snd (run_methods sample_host
         [layout, generate, build, source_2, package, package_info] sample_state)))
       = (''fossil_media'', ''0.1.1'', ''MPL-2.0'', ''Fossil Logic <michaelbrockus@gmail.com>'',
          ''https://github.com/fossillogic/fossil-media'',
          ''Fossil Media is a lightweight, portable data parsing and processing library written in pure C with zero external dependencies.'',
          [''c'', ''xml'', ''csv'', ''json'', ''cpp'', ''meson'', ''conan-recipe'', ''mesonbuild'',
           ''ninja-build''])"
proof -
  have sub: "set [layout, generate, build, source_2, package, package_info] \<subseteq> snd ` set class_body"
    by (simp add: class_body_def)
  have d0: "descriptor (self sample_state)
       = (''fossil_media'', ''0.1.1'', ''MPL-2.0'', ''Fossil Logic <michaelbrockus@gmail.com>'',
          ''https://github.com/fossillogic/fossil-media'',
          ''Fossil Media is a lightweight, portable data parsing and processing library written in pure C with zero external dependencies.'',
          [''c'', ''xml'', ''csv'', ''json'', ''cpp'', ''meson'', ''conan-recipe'', ''mesonbuild'',
           ''ninja-build''])"
    by (simp add: descriptor_def sample_state_def FossilMediaConan_def)
  from sub d0 descriptor_never_mutated [OF sub, of sample_host sample_state]
  show ?thesis by (simp only: simp_thms)
qed

lemma join2_include: "join2 pf ''include'' = (if pf = [] \<or> last pf = CHR ''/'' then pf else pf @ ''/'') @ ''include''"
  by (simp add: join2_def)

lemma include_dst:
  "path_join pf [''include'', ''fossil'', ''media''] = path_join pf [''include''] @ ''/fossil/media''"
  by (simp add: path_join_def join2_include) (simp add: join2_def)

lemma include_dst_nested:
  "path_join pf [''include'', ''fossil'', ''media'']
     = path_join (path_join pf [''include'']) [''fossil'', ''media'']"
  by (simp add: path_join_def)

lemma package_Done:
  assumes "fst (package h s) = Done"
  shows "snd (package h s) =
           s\<lparr>calls := calls s @ [Meson_init, Meson_install,
                Copy ''*.h'' ''code/logic/fossil/media''
                  (path_join (package_folder (self s)) [''include'', ''fossil'', ''media''])],
             files := copy_files ''*.h'' ''code/logic/fossil/media''
                  (path_join (package_folder (self s)) [''include'', ''fossil'', ''media''])
                  (files s \<union> writes h Meson_init \<union> writes h Meson_install)\<rparr>"
  using assms
  by (auto simp: package_def then_do_def perform_def split: option.splits)

lemma fnmatch_suffix_h: "fnmatch s ''*.h'' = suffix ''.h'' s"
proof (induction s)
  case Nil
  show ?case by simp
next
  case (Cons c cs)
  have "fnmatch (c # cs) ''.h'' = (c # cs = ''.h'')"
    by (cases cs; cases "tl cs") auto
  then show ?case
    using Cons.IH by (auto simp: suffix_Cons)
qed

lemma copy_files_header:
  assumes "src @ ''/'' @ rel \<in> G" and "fnmatch rel pat"
  shows "dst @ ''/'' @ rel \<in> copy_files pat src dst G"
proof -
  have "lies_under src (src @ ''/'' @ rel)"
    by (simp add: lies_under_def)
  moreover have "drop (length src + 1) (src @ ''/'' @ rel) = rel"
    by simp
  ultimately have "src @ ''/'' @ rel \<in> {p \<in> G. lies_under src p \<and> fnmatch (drop (length src + 1) p) pat}"
    using assms by simp
  then have "(\<lambda>p. dst @ ''/'' @ drop (length src + 1) p) (src @ ''/'' @ rel)
               \<in> (\<lambda>p. dst @ ''/'' @ drop (length src + 1) p) `
                   {p \<in> G. lies_under src p \<and> fnmatch (drop (length src + 1) p) pat}"
    by (rule imageI)
  then show ?thesis
    by (simp add: copy_files_def)
qed

lemma copy_files_new:
  assumes "p \<in> copy_files pat src dst G" and "p \<notin> G"
  shows "\<exists>rel. p = dst @ ''/'' @ rel \<and> src @ ''/'' @ rel \<in> G \<and> fnmatch rel pat"
proof -
  from assms obtain q where q: "q \<in> G" "lies_under src q" "fnmatch (drop (length src + 1) q) pat"
      and p: "p = dst @ ''/'' @ drop (length src + 1) q"
    by (auto simp: copy_files_def)
  from q(2) obtain r where "q = (src @ ''/'') @ r"
    by (auto simp: lies_under_def prefix_def)
  then have "q = src @ ''/'' @ drop (length src + 1) q"
    by simp
  with q p show ?thesis by metis
qed

lemma copy_files_twice:
  assumes "\<And>r. \<not> lies_under src (dst @ ''/'' @ r)"
  shows "copy_files pat src dst (copy_files pat src dst G) = copy_files pat src dst G"
  using assms by (auto simp: copy_files_def)

lemma absolute_dst:
  assumes "take 1 pf = ''/''"
  shows "\<not> lies_under ''code/logic/fossil/media''
            (path_join pf [''include'', ''fossil'', ''media''] @ ''/'' @ r)"
proof -
  from assms obtain pf' where "pf = CHR ''/'' # pf'"
    by (cases pf) auto
  then show ?thesis
    unfolding include_dst by (simp add: path_join_def join2_include lies_under_def)
qed

subsection \<open>C4: package installs, then copies the headers\<close>

text \<open>
  Claim C4. When \<^verbatim>\<open>package()\<close> returns, its external calls were, in this order:
  creating the \<^verbatim>\<open>Meson\<close> helper, its install step, and the copy of \<^verbatim>\<open>*.h\<close> from
  \<^verbatim>\<open>code/logic/fossil/media\<close> to the join of the package folder with \<^verbatim>\<open>include\<close>,
  \<^verbatim>\<open>fossil\<close> and \<^verbatim>\<open>media\<close>. Every file under the source subpath that matches \<^verbatim>\<open>*.h\<close>
  when the copy runs is then present under the destination at the same relative name.
  With an absolute package folder, as the framework provides it, a second run that
  returns leaves the set of files exactly as the first run left it.
\<close>

theorem package_installs_then_copies_headers:
  assumes "fst (package h s) = Done"
  shows "new_calls s (snd (package h s))
           = [Meson_init, Meson_install,
              Copy ''*.h'' ''code/logic/fossil/media''
                (path_join (package_folder (self s)) [''include'', ''fossil'', ''media''])]
         \<and> (\<forall>rel. ''code/logic/fossil/media'' @ ''/'' @ rel
                     \<in> files s \<union> writes h Meson_init \<union> writes h Meson_install
                   \<and> fnmatch rel ''*.h'' \<longrightarrow>
                 path_join (package_folder (self s)) [''include'', ''fossil'', ''media''] @ ''/'' @ rel
                     \<in> files (snd (package h s)))
         \<and> (take 1 (package_folder (self s)) = ''/''
              \<and> fst (package h (snd (package h s))) = Done \<longrightarrow>
             files (snd (package h (snd (package h s)))) = files (snd (package h s)))"
proof -
  let ?dst = "path_join (package_folder (self s)) [''include'', ''fossil'', ''media'']"
  let ?G = "files s \<union> writes h Meson_init \<union> writes h Meson_install"
  let ?s' = "snd (package h s)"
  note once = package_Done [OF assms]
  have first: "new_calls s ?s' = [Meson_init, Meson_install, Copy ''*.h'' ''code/logic/fossil/media'' ?dst]"
    by (simp add: once new_calls_def)
  have files1: "files ?s' = copy_files ''*.h'' ''code/logic/fossil/media'' ?dst ?G"
    by (simp add: once)
  have headers: "\<forall>rel. ''code/logic/fossil/media'' @ ''/'' @ rel \<in> ?G \<and> fnmatch rel ''*.h'' \<longrightarrow>
                   ?dst @ ''/'' @ rel \<in> files ?s'"
    unfolding files1 by (blast intro: copy_files_header)
  have again: "take 1 (package_folder (self s)) = ''/'' \<and> fst (package h ?s') = Done \<longrightarrow>
                 files (snd (package h ?s')) = files ?s'"
  proof
    assume a: "take 1 (package_folder (self s)) = ''/'' \<and> fst (package h ?s') = Done"
    have same: "self ?s' = self s"
      by (simp add: once)
    have grown: "files ?s' \<union> writes h Meson_init \<union> writes h Meson_install = files ?s'"
      unfolding files1 by (auto simp: copy_files_def)
    from a have "files (snd (package h ?s'))
                   = copy_files ''*.h'' ''code/logic/fossil/media'' ?dst
                       (files ?s' \<union> writes h Meson_init \<union> writes h Meson_install)"
      by (simp add: package_Done same)
    also have "\<dots> = copy_files ''*.h'' ''code/logic/fossil/media'' ?dst (files ?s')"
      by (simp only: grown)
    also have "\<dots> = files ?s'"
      unfolding files1 using a by (intro copy_files_twice absolute_dst) simp
    finally show "files (snd (package h ?s')) = files ?s'" .
  qed
  from first headers again show ?thesis by blast
qed

lemma sample_host_package_Done: "fst (package sample_host s) = Done"
  by (simp add: package_def then_do_def perform_def sample_host_def)

lemma sample_package_folder: "package_folder (self sample_state) = ''/pkg''"
  by (simp add: sample_state_def FossilMediaConan_def)

lemma sample_header: "''code/logic/fossil/media'' @ ''/'' @ ''media.h'' \<in> files sample_state"
  by (simp add: sample_state_def)

lemma sample_dst: "path_join ''/pkg'' [''include'', ''fossil'', ''media''] = ''/pkg/include/fossil/media''"
  by (simp add: path_join_def join2_def)

theorem package_installs_then_copies_headers_witness:
  "fst (package sample_host sample_state) = Done
   \<and> take 1 (package_folder (self sample_state)) = ''/''
   \<and> fst (package sample_host (snd (package sample_host sample_state))) = Done
   \<and> ''code/logic/fossil/media/media.h'' \<in> files sample_state
   \<and> fnmatch ''media.h'' ''*.h''
   \<and> new_calls sample_state (snd (package sample_host sample_state))
        = [Meson_init, Meson_install,
           Copy ''*.h'' ''code/logic/fossil/media'' ''/pkg/include/fossil/media'']
   \<and> ''/pkg/include/fossil/media/media.h'' \<in> files (snd (package sample_host sample_state))
   \<and> files (snd (package sample_host (snd (package sample_host sample_state))))
        = files (snd (package sample_host sample_state))"
proof -
  have m: "fnmatch ''media.h'' ''*.h''"
    by simp
  from package_installs_then_copies_headers [OF sample_host_package_Done, of sample_state]
  have calls: "new_calls sample_state (snd (package sample_host sample_state))
        = [Meson_init, Meson_install,
           Copy ''*.h'' ''code/logic/fossil/media'' ''/pkg/include/fossil/media'']"
    and hdr: "''code/logic/fossil/media'' @ ''/'' @ ''media.h''
                 \<in> files sample_state \<union> writes sample_host Meson_init \<union> writes sample_host Meson_install
               \<and> fnmatch ''media.h'' ''*.h'' \<longrightarrow>
              ''/pkg/include/fossil/media'' @ ''/'' @ ''media.h''
                 \<in> files (snd (package sample_host sample_state))"
    and twice: "take 1 (package_folder (self sample_state)) = ''/''
              \<and> fst (package sample_host (snd (package sample_host sample_state))) = Done \<longrightarrow>
             files (snd (package sample_host (snd (package sample_host sample_state))))
               = files (snd (package sample_host sample_state))"
    unfolding sample_package_folder sample_dst by blast+
  from hdr m sample_header
  have there: "''/pkg/include/fossil/media/media.h'' \<in> files (snd (package sample_host sample_state))"
    by simp
  from twice have same: "files (snd (package sample_host (snd (package sample_host sample_state))))
               = files (snd (package sample_host sample_state))"
    by (simp add: sample_host_package_Done sample_package_folder)
  from sample_header have src: "''code/logic/fossil/media/media.h'' \<in> files sample_state"
    by simp
  from calls there same m src show ?thesis
    by (simp add: sample_host_package_Done sample_package_folder)
qed

subsection \<open>C10: the copied headers lie under the declared include directory\<close>

text \<open>
  Claim C10. After \<^verbatim>\<open>package_info()\<close> the include directories are the single relative
  path \<^verbatim>\<open>include\<close>. For that directory, resolved against the package folder: when
  \<^verbatim>\<open>package()\<close> returns, the destination of its copy is the join of the directory with
  \<^verbatim>\<open>fossil\<close> and \<^verbatim>\<open>media\<close>, and every file the copy has added lies under the directory,
  at \<^verbatim>\<open>fossil/media/\<close> followed by a relative name.
\<close>

theorem copied_headers_lie_under_declared_include_dir:
  "cpp_info_includedirs (self (snd (package_info h' s'))) = [''include'']
   \<and> (\<forall>d \<in> set (cpp_info_includedirs (self (snd (package_info h' s')))).
        fst (package h s) = Done \<longrightarrow>
          last (new_calls s (snd (package h s)))
            = Copy ''*.h'' ''code/logic/fossil/media''
                (path_join (path_join (package_folder (self s)) [d]) [''fossil'', ''media''])
          \<and> (\<forall>p \<in> files (snd (package h s))
                     - (files s \<union> writes h Meson_init \<union> writes h Meson_install).
                lies_under (path_join (package_folder (self s)) [d]) p
                \<and> (\<exists>rel. p = path_join (package_folder (self s)) [d] @ ''/fossil/media/'' @ rel)))"
proof -
  have dirs: "cpp_info_includedirs (self (snd (package_info h' s'))) = [''include'']"
    by (simp add: package_info_def)
  have under: "fst (package h s) = Done \<longrightarrow>
          last (new_calls s (snd (package h s)))
            = Copy ''*.h'' ''code/logic/fossil/media''
                (path_join (path_join (package_folder (self s)) [''include'']) [''fossil'', ''media''])
          \<and> (\<forall>p \<in> files (snd (package h s))
                     - (files s \<union> writes h Meson_init \<union> writes h Meson_install).
                lies_under (path_join (package_folder (self s)) [''include'']) p
                \<and> (\<exists>rel. p = path_join (package_folder (self s)) [''include''] @ ''/fossil/media/'' @ rel))"
  proof
    assume ok: "fst (package h s) = Done"
    note once = package_Done [OF ok]
    have c: "last (new_calls s (snd (package h s)))
            = Copy ''*.h'' ''code/logic/fossil/media''
                (path_join (path_join (package_folder (self s)) [''include'']) [''fossil'', ''media''])"
      by (simp add: once new_calls_def include_dst_nested [symmetric])
    have f: "\<forall>p \<in> files (snd (package h s))
                     - (files s \<union> writes h Meson_init \<union> writes h Meson_install).
                lies_under (path_join (package_folder (self s)) [''include'']) p
                \<and> (\<exists>rel. p = path_join (package_folder (self s)) [''include''] @ ''/fossil/media/'' @ rel)"
    proof
      fix p
      assume "p \<in> files (snd (package h s)) - (files s \<union> writes h Meson_init \<union> writes h Meson_install)"
      then have "p \<in> copy_files ''*.h'' ''code/logic/fossil/media''
                       (path_join (package_folder (self s)) [''include'', ''fossil'', ''media''])
                       (files s \<union> writes h Meson_init \<union> writes h Meson_install)"
          and "p \<notin> files s \<union> writes h Meson_init \<union> writes h Meson_install"
        by (simp_all add: once)
      then obtain rel where
        "p = path_join (package_folder (self s)) [''include'', ''fossil'', ''media''] @ ''/'' @ rel"
        using copy_files_new by blast
      then have p: "p = path_join (package_folder (self s)) [''include''] @ ''/fossil/media/'' @ rel"
        unfolding include_dst by simp
      then have "lies_under (path_join (package_folder (self s)) [''include'']) p"
        by (simp add: lies_under_def)
      with p show "lies_under (path_join (package_folder (self s)) [''include'']) p
                \<and> (\<exists>rel. p = path_join (package_folder (self s)) [''include''] @ ''/fossil/media/'' @ rel)"
        by blast
    qed
    from c f show "last (new_calls s (snd (package h s)))
            = Copy ''*.h'' ''code/logic/fossil/media''
                (path_join (path_join (package_folder (self s)) [''include'']) [''fossil'', ''media''])
          \<and> (\<forall>p \<in> files (snd (package h s))
                     - (files s \<union> writes h Meson_init \<union> writes h Meson_install).
                lies_under (path_join (package_folder (self s)) [''include'']) p
                \<and> (\<exists>rel. p = path_join (package_folder (self s)) [''include''] @ ''/fossil/media/'' @ rel))"
      by blast
  qed
  from dirs under show ?thesis by simp
qed

lemma sample_copied_header:
  "''/pkg/include/fossil/media/media.h''
     \<in> files (snd (package sample_host sample_state))
       - (files sample_state \<union> writes sample_host Meson_init \<union> writes sample_host Meson_install)"
proof -
  have "''/pkg/include/fossil/media'' @ ''/'' @ ''media.h''
          \<in> copy_files ''*.h'' ''code/logic/fossil/media'' ''/pkg/include/fossil/media''
               (files sample_state \<union> writes sample_host Meson_init \<union> writes sample_host Meson_install)"
    using sample_header by (intro copy_files_header) simp_all
  then have "''/pkg/include/fossil/media/media.h'' \<in> files (snd (package sample_host sample_state))"
    by (simp add: package_Done [OF sample_host_package_Done] sample_package_folder sample_dst)
  moreover have "''/pkg/include/fossil/media/media.h''
      \<notin> files sample_state \<union> writes sample_host Meson_init \<union> writes sample_host Meson_install"
    by (simp add: sample_state_def sample_host_def)
  ultimately show ?thesis by simp
qed

theorem copied_headers_lie_under_declared_include_dir_witness:
  "cpp_info_includedirs (self (snd (package_info sample_host sample_state))) = [''include'']
   \<and> fst (package sample_host sample_state) = Done
   \<and> ''/pkg/include/fossil/media/media.h''
        \<in> files (snd (package sample_host sample_state))
          - (files sample_state \<union> writes sample_host Meson_init \<union> writes sample_host Meson_install)
   \<and> last (new_calls sample_state (snd (package sample_host sample_state)))
        = Copy ''*.h'' ''code/logic/fossil/media'' ''/pkg/include/fossil/media''
   \<and> lies_under ''/pkg/include'' ''/pkg/include/fossil/media/media.h''"
proof -
  have inc: "path_join ''/pkg'' [''include''] = ''/pkg/include''"
    by (simp add: path_join_def join2_def)
  have dst: "path_join ''/pkg/include'' [''fossil'', ''media''] = ''/pkg/include/fossil/media''"
    by (simp add: path_join_def join2_def)
  note claim = copied_headers_lie_under_declared_include_dir
                 [of sample_host sample_state sample_host sample_state]
  from claim
  have dirs: "cpp_info_includedirs (self (snd (package_info sample_host sample_state))) = [''include'']"
    by blast
  then have "''include'' \<in> set (cpp_info_includedirs (self (snd (package_info sample_host sample_state))))"
    by simp
  with claim
  have "fst (package sample_host sample_state) = Done \<longrightarrow>
          last (new_calls sample_state (snd (package sample_host sample_state)))
            = Copy ''*.h'' ''code/logic/fossil/media''
                (path_join (path_join (package_folder (self sample_state)) [''include''])
                   [''fossil'', ''media''])
          \<and> (\<forall>p \<in> files (snd (package sample_host sample_state))
                     - (files sample_state \<union> writes sample_host Meson_init \<union> writes sample_host Meson_install).
                lies_under (path_join (package_folder (self sample_state)) [''include'']) p
                \<and> (\<exists>rel. p = path_join (package_folder (self sample_state)) [''include'']
                                @ ''/fossil/media/'' @ rel))"
    by blast
  then have rest: "last (new_calls sample_state (snd (package sample_host sample_state)))
            = Copy ''*.h'' ''code/logic/fossil/media'' ''/pkg/include/fossil/media''
          \<and> (\<forall>p \<in> files (snd (package sample_host sample_state))
                     - (files sample_state \<union> writes sample_host Meson_init \<union> writes sample_host Meson_install).
                lies_under ''/pkg/include'' p
                \<and> (\<exists>rel. p = ''/pkg/include'' @ ''/fossil/media/'' @ rel))"
    unfolding sample_package_folder inc dst using sample_host_package_Done by blast
  from rest sample_copied_header
  have "lies_under ''/pkg/include'' ''/pkg/include/fossil/media/media.h''"
    by blast
  with dirs rest sample_copied_header show ?thesis
    by (simp add: sample_host_package_Done)
qed

end
